theory Spec2Isabelle
  imports Main
begin

section \<open>Paths\<close>

text \<open>
  Every path of the program is absolute (\<open>init\<close>, \<open>sync\<close> and \<open>clean\<close> build them with
  \<open>path.join(process.cwd(), ...)\<close>), so a path is the list of its segments below the
  root; \<open>[]\<close> is the root itself. The text of a symbolic link is kept as a flag (does it
  start with a slash) and its segments, which may be \<open>..\<close> and \<open>.\<close>.
\<close>

type_synonym path = "string list"

text \<open>One segment of \<open>path.resolve\<close> / \<open>path.join\<close> / \<open>path.normalize\<close>.\<close>

definition seg_step :: "path \<Rightarrow> string \<Rightarrow> path" where
  "seg_step cur s =
     (if s = ''..'' then butlast cur
      else if s = ''.'' then cur
      else if s = [] then cur
      else cur @ [s])"

text \<open>\<open>path.resolve(base, text)\<close>: an absolute text forgets the base.\<close>

definition path_resolve :: "path \<Rightarrow> bool \<Rightarrow> string list \<Rightarrow> path" where
  "path_resolve base isabs segs = foldl seg_step (if isabs then [] else base) segs"

text \<open>\<open>path.resolve(p)\<close> of an absolute path, and \<open>path.join(cwd, rel)\<close>.\<close>

definition path_resolve1 :: "path \<Rightarrow> path" where
  "path_resolve1 p = path_resolve [] True p"

definition path_join :: "path \<Rightarrow> string list \<Rightarrow> path" where
  "path_join cwd rel = foldl seg_step cwd rel"

text \<open>\<open>path.dirname\<close> of a resolved path; the root is its own parent.\<close>

definition path_dirname :: "path \<Rightarrow> path" where
  "path_dirname p = butlast p"

fun strip_common :: "path \<Rightarrow> path \<Rightarrow> path \<times> path" where
  "strip_common (a # as) (b # bs) =
     (if a = b then strip_common as bs else (a # as, b # bs))"
| "strip_common as bs = (as, bs)"

text \<open>\<open>path.relative(from, to)\<close> of two resolved paths: up out of what is left of
  \<open>from\<close>, then down what is left of \<open>to\<close>. The result \<open>[]\<close> is the empty string.\<close>

definition path_relative :: "path \<Rightarrow> path \<Rightarrow> string list" where
  "path_relative from to =
     (case strip_common from to of (f, t) \<Rightarrow> replicate (length f) ''..'' @ t)"


section \<open>The file system\<close>

text \<open>
  The program talks to the file system through Node's synchronous \<open>fs\<close> calls. They are
  modelled on one table from paths to entries. A regular file carries its bytes and
  whether it may be read and written; a directory carries whether entries may be added
  to and removed from it; a symbolic link carries its text. The platform flag says
  whether the platform lets this process create symbolic links at all.

  The table is that of a file system: the root is a directory, and what lies above an
  entry are directories. The paths that the program names (the source, the targets and
  the directories above them) are looked up as they are written. The text of a symbolic
  link is walked as the kernel walks it, segment by segment from the directory of the
  link: every place the walk passes through has to be a directory that is there. The
  program makes its links to a file (\<open>symlinkSync(..., "file")\<close>), and a symbolic link
  is never taken for a directory: directories that are themselves symbolic links are
  outside the model.
\<close>

datatype node =
    File (content: string) (readable: bool) (writable: bool)
  | Link (link_abs: bool) (link_segs: "string list")
  | Dir (dir_writable: bool)

datatype errno = ENOENT | EEXIST | EACCES | EPERM | ENOTDIR | EISDIR | EINVAL | ELOOP

record fs =
  nodes :: "path \<Rightarrow> node option"
  symlinks_ok :: bool

text \<open>Where the walk of the text of a link starts: at the root for a text that starts
  with a slash, in the directory of the link otherwise.\<close>

definition link_start :: "bool \<Rightarrow> path \<Rightarrow> path" where
  "link_start isabs p = (if isabs then [] else path_dirname p)"

text \<open>
  \<open>follow k s cur segs\<close>: the walk is at \<open>cur\<close> and has the segments \<open>segs\<close> still to
  go; \<open>k\<close> is the number of symbolic links it may still follow. With segments to go,
  \<open>cur\<close> has to be a directory: nothing there is \<open>ENOENT\<close>, a file is \<open>ENOTDIR\<close>, and for
  a link what it leads to decides (nothing: \<open>ENOENT\<close>; something: \<open>ENOTDIR\<close>, see
  above). With no segment to go, a link at \<open>cur\<close> is followed (an empty text is
  \<open>ENOENT\<close>) and anything else, or nothing, is where the walk ends.
\<close>

function follow :: "nat \<Rightarrow> fs \<Rightarrow> path \<Rightarrow> string list \<Rightarrow> errno + path" where
  "follow k s cur [] =
     (case nodes s cur of
        Some (Link a txt) \<Rightarrow>
          (if \<not> a \<and> txt = [] then Inl ENOENT
           else (case k of
                   0 \<Rightarrow> Inl ELOOP
                 | Suc k' \<Rightarrow> follow k' s (link_start a cur) txt))
      | Some (File c r w) \<Rightarrow> Inr cur
      | Some (Dir w) \<Rightarrow> Inr cur
      | None \<Rightarrow> Inr cur)"
| "follow k s cur (seg # rest) =
     (case nodes s cur of
        None \<Rightarrow> Inl ENOENT
      | Some (File c r w) \<Rightarrow> Inl ENOTDIR
      | Some (Dir w) \<Rightarrow> follow k s (seg_step cur seg) rest
      | Some (Link a txt) \<Rightarrow>
          (case follow k s cur [] of
             Inl e \<Rightarrow> Inl e
           | Inr q \<Rightarrow> (case nodes s q of None \<Rightarrow> Inl ENOENT | Some n \<Rightarrow> Inl ENOTDIR)))"
  by pat_completeness auto
termination
  by (relation "measures [\<lambda>(k, s, cur, segs). k, \<lambda>(k, s, cur, segs). length segs]") auto

definition symloop_max :: nat where
  "symloop_max = 40"

text \<open>Why the kernel finds nothing at a path the program names: it walks the path
  from the root, and the first place that is not a directory decides; when every
  directory on the way is there, the entry itself is missing.\<close>

definition lookup_errno :: "fs \<Rightarrow> path \<Rightarrow> errno" where
  "lookup_errno s p = (case follow symloop_max s [] p of Inl e \<Rightarrow> e | Inr q \<Rightarrow> ENOENT)"

text \<open>
  \<open>buffer.toString("utf8")\<close>, as \<open>readFileSync(p, "utf8")\<close> applies it to the bytes of
  a file. A JavaScript string is kept as its UTF-8 encoding, which is what
  \<open>writeFileSync(p, text, "utf8")\<close> writes; appending strings appends encodings, and
  the marker, which is ASCII, occurs in a string exactly when its bytes occur in the
  encoding. Decoding keeps every well-formed sequence and puts U+FFFD (the bytes
  \<open>EF BF BD\<close>) for every ill-formed one: for a byte that cannot start a sequence, and for
  a start byte together with the continuation bytes that may follow it, when the
  sequence stops short.
\<close>

definition lead_len :: "nat \<Rightarrow> nat" where
  "lead_len n =
     (if n < 128 then 1
      else if 194 \<le> n \<and> n \<le> 223 then 2
      else if 224 \<le> n \<and> n \<le> 239 then 3
      else if 240 \<le> n \<and> n \<le> 244 then 4
      else 0)"

definition second_range :: "nat \<Rightarrow> nat \<times> nat" where
  "second_range n =
     (if n = 224 then (160, 191)
      else if n = 237 then (128, 159)
      else if n = 240 then (144, 191)
      else if n = 244 then (128, 143)
      else (128, 191))"

fun good_prefix :: "nat \<Rightarrow> nat \<Rightarrow> nat \<Rightarrow> string \<Rightarrow> nat" where
  "good_prefix k lo hi [] = 0"
| "good_prefix k lo hi (c # cs) =
     (if k = 0 then 0
      else if lo \<le> of_char c \<and> of_char c \<le> hi then Suc (good_prefix (k - 1) 128 191 cs)
      else 0)"

definition replacement :: string where
  "replacement = [CHR 0xEF, CHR 0xBF, CHR 0xBD]"

function utf8_decode :: "string \<Rightarrow> string" where
  "utf8_decode [] = []"
| "utf8_decode (b # bs) =
     (let len = lead_len (of_char b) in
      if len = 0 then replacement @ utf8_decode bs
      else (let g = good_prefix (len - 1) (fst (second_range (of_char b)))
                      (snd (second_range (of_char b))) bs in
            if g = len - 1 then (b # take g bs) @ utf8_decode (drop g bs)
            else replacement @ utf8_decode (drop g bs)))"
  by pat_completeness auto
termination
  by (relation "measure length") auto

text \<open>\<open>fs.accessSync(p, F_OK)\<close>: \<open>access(2)\<close> follows symbolic links.\<close>

definition accessSync :: "path \<Rightarrow> fs \<Rightarrow> errno + unit" where
  "accessSync p s =
     (case follow symloop_max s p [] of
        Inl e \<Rightarrow> Inl e
      | Inr q \<Rightarrow> (case nodes s q of None \<Rightarrow> Inl (lookup_errno s q) | Some n \<Rightarrow> Inr ()))"

text \<open>\<open>fs.statSync(p)\<close>, which \<open>mkdirSync\<close> uses: the entry that \<open>p\<close> leads to.\<close>

definition statSync :: "path \<Rightarrow> fs \<Rightarrow> errno + node" where
  "statSync p s =
     (case follow symloop_max s p [] of
        Inl e \<Rightarrow> Inl e
      | Inr q \<Rightarrow> (case nodes s q of None \<Rightarrow> Inl (lookup_errno s q) | Some n \<Rightarrow> Inr n))"

text \<open>\<open>fs.lstatSync(p)\<close>: the entry itself, a link is not followed.\<close>

definition lstatSync :: "path \<Rightarrow> fs \<Rightarrow> errno + node" where
  "lstatSync p s = (case nodes s p of None \<Rightarrow> Inl (lookup_errno s p) | Some n \<Rightarrow> Inr n)"

definition isSymbolicLink :: "node \<Rightarrow> bool" where
  "isSymbolicLink n = (case n of Link a segs \<Rightarrow> True | File c r w \<Rightarrow> False | Dir w \<Rightarrow> False)"

text \<open>\<open>fs.readlinkSync(p)\<close>: the text of the link, whether or not it leads anywhere.\<close>

definition readlinkSync :: "path \<Rightarrow> fs \<Rightarrow> errno + bool \<times> string list" where
  "readlinkSync p s =
     (case nodes s p of
        None \<Rightarrow> Inl (lookup_errno s p)
      | Some (Link a segs) \<Rightarrow> Inr (a, segs)
      | Some (File c r w) \<Rightarrow> Inl EINVAL
      | Some (Dir w) \<Rightarrow> Inl EINVAL)"

text \<open>\<open>fs.readFileSync(p, "utf8")\<close>: follows links and decodes what it reads.\<close>

definition readFileSync :: "path \<Rightarrow> fs \<Rightarrow> errno + string" where
  "readFileSync p s =
     (case follow symloop_max s p [] of
        Inl e \<Rightarrow> Inl e
      | Inr q \<Rightarrow>
          (case nodes s q of
             None \<Rightarrow> Inl (lookup_errno s q)
           | Some (File c r w) \<Rightarrow> (if r then Inr (utf8_decode c) else Inl EACCES)
           | Some (Dir w) \<Rightarrow> Inl EISDIR
           | Some (Link a segs) \<Rightarrow> Inl ELOOP))"

text \<open>A new entry needs the place above it to be a directory that may be written;
  when no directory is there, the walk from the root says why.\<close>

definition create_entry :: "path \<Rightarrow> node \<Rightarrow> fs \<Rightarrow> errno + fs" where
  "create_entry q n s =
     (case nodes s (path_dirname q) of
        Some (Dir w) \<Rightarrow> (if w then Inr (s\<lparr>nodes := (nodes s)(q \<mapsto> n)\<rparr>) else Inl EACCES)
      | Some (File c r w) \<Rightarrow> Inl (lookup_errno s q)
      | Some (Link a segs) \<Rightarrow> Inl (lookup_errno s q)
      | None \<Rightarrow> Inl (lookup_errno s q))"

text \<open>\<open>fs.writeFileSync(p, text, "utf8")\<close>: opens with \<open>O_WRONLY|O_CREAT|O_TRUNC\<close>, so
  it follows links, truncates the file it reaches and creates the file a dangling link
  names.\<close>

definition writeFileSync :: "path \<Rightarrow> string \<Rightarrow> fs \<Rightarrow> errno + fs" where
  "writeFileSync p txt s =
     (case follow symloop_max s p [] of
        Inl e \<Rightarrow> Inl e
      | Inr q \<Rightarrow>
          (case nodes s q of
             None \<Rightarrow> create_entry q (File txt True True) s
           | Some (File c r w) \<Rightarrow>
               (if w then Inr (s\<lparr>nodes := (nodes s)(q \<mapsto> File txt r w)\<rparr>) else Inl EACCES)
           | Some (Dir w) \<Rightarrow> Inl EISDIR
           | Some (Link a segs) \<Rightarrow> Inl ELOOP))"

text \<open>\<open>fs.symlinkSync(text, p, "file")\<close>: refused by the platform, or because the
  text is empty, or because anything at all (a dangling link too) is already at \<open>p\<close>.\<close>

definition symlinkSync :: "bool \<times> string list \<Rightarrow> path \<Rightarrow> fs \<Rightarrow> errno + fs" where
  "symlinkSync txt p s =
     (if \<not> symlinks_ok s then Inl EPERM
      else if \<not> fst txt \<and> snd txt = [] then Inl ENOENT
      else (case nodes s p of
              Some n \<Rightarrow> Inl EEXIST
            | None \<Rightarrow> create_entry p (Link (fst txt) (snd txt)) s))"

text \<open>\<open>fs.unlinkSync(p)\<close>: removes the entry itself, never what a link names.\<close>

definition unlinkSync :: "path \<Rightarrow> fs \<Rightarrow> errno + fs" where
  "unlinkSync p s =
     (case nodes s p of
        None \<Rightarrow> Inl (lookup_errno s p)
      | Some (Dir w) \<Rightarrow> Inl EISDIR
      | Some n \<Rightarrow>
          (case nodes s (path_dirname p) of
             Some (Dir True) \<Rightarrow> Inr (s\<lparr>nodes := (nodes s)(p := None)\<rparr>)
           | Some (Dir False) \<Rightarrow> Inl EACCES
           | Some m \<Rightarrow> Inl (lookup_errno s p)
           | None \<Rightarrow> Inl (lookup_errno s p)))"

text \<open>\<open>mkdir(2)\<close>: one directory; anything at all that is already there is \<open>EEXIST\<close>.\<close>

definition mkdirSync1 :: "path \<Rightarrow> fs \<Rightarrow> errno + fs" where
  "mkdirSync1 p s =
     (case nodes s p of
        Some n \<Rightarrow> Inl EEXIST
      | None \<Rightarrow> create_entry p (Dir True) s)"

text \<open>
  \<open>fs.mkdirSync(p, {recursive: true})\<close>, as Node does it (\<open>MKDirpSync\<close>): it tries
  \<open>mkdir\<close>; \<open>EACCES\<close>, \<open>ENOTDIR\<close> and \<open>EPERM\<close> it throws; on \<open>ENOENT\<close> it makes the
  directory above in the same way and then tries again; on any other error it asks
  \<open>stat\<close>: a directory there is fine, anything else is \<open>EEXIST\<close> (\<open>ENOTDIR\<close> when there
  are directories still to make below), and an error of \<open>stat\<close> is thrown as it is. So
  a dangling link in the way is \<open>ENOENT\<close>. The flag says whether there are directories
  still to make below. When the directory above has been made or found, the second
  \<open>mkdir\<close> does not fail with \<open>ENOENT\<close> on a file system; the model throws it where Node
  would start over. It may fail after it has made some directories.
\<close>

definition mkdir_exists :: "errno \<Rightarrow> bool \<Rightarrow> path \<Rightarrow> fs \<Rightarrow> errno option" where
  "mkdir_exists orig below p s =
     (case statSync p s of
        Inl e \<Rightarrow> Some e
      | Inr (Dir w) \<Rightarrow> None
      | Inr (File c r w) \<Rightarrow> Some (if orig = EEXIST \<and> below then ENOTDIR else EEXIST)
      | Inr (Link a segs) \<Rightarrow> Some (if orig = EEXIST \<and> below then ENOTDIR else EEXIST))"

definition mkdir_retry :: "bool \<Rightarrow> path \<Rightarrow> fs \<Rightarrow> errno option \<times> fs" where
  "mkdir_retry below p s =
     (case mkdirSync1 p s of
        Inr s' \<Rightarrow> (None, s')
      | Inl e \<Rightarrow>
          (if e = EACCES \<or> e = ENOTDIR \<or> e = EPERM \<or> e = ENOENT then (Some e, s)
           else (mkdir_exists e below p s, s)))"

function mkdirp :: "bool \<Rightarrow> path \<Rightarrow> fs \<Rightarrow> errno option \<times> fs" where
  "mkdirp below p s =
     (case mkdirSync1 p s of
        Inr s' \<Rightarrow> (None, s')
      | Inl e \<Rightarrow>
          (if e = EACCES \<or> e = ENOTDIR \<or> e = EPERM then (Some e, s)
           else if e = ENOENT then
             (if p = [] then (if below then (None, s) else (mkdir_exists EEXIST below p s, s))
              else (case mkdirp True (path_dirname p) s of
                      (Some e', s') \<Rightarrow> (Some e', s')
                    | (None, s') \<Rightarrow> mkdir_retry below p s'))
           else (mkdir_exists e below p s, s)))"
  by pat_completeness auto
termination
  by (relation "measure (\<lambda>(below, p, s). length p)") (auto simp: path_dirname_def)

definition mkdirSync_recursive :: "path \<Rightarrow> fs \<Rightarrow> errno option \<times> fs" where
  "mkdirSync_recursive p s = mkdirp False p s"


section \<open>The program\<close>

definition SOURCE_FILE :: "string list" where
  "SOURCE_FILE = [''AGENTS.md'']"

definition MANAGED_MARKER :: string where
  "MANAGED_MARKER =
     ''agents-link:managed:e3b0c44298fc1c149afbf4c8996fb92427ae41e4649b934ca495991b7852b855''"

definition TARGET_FILES :: "string list list" where
  "TARGET_FILES =
     [[''CLAUDE.md''],
      [''GEMINI.md''],
      [''.cursor'', ''rules'', ''AGENTS.md''],
      [''.cursorrules''],
      [''.windsurf'', ''rules'', ''AGENTS.md''],
      [''.github'', ''copilot-instructions.md''],
      [''.rules'']]"

definition generateManagedHeader :: string where
  "generateManagedHeader =
     ''<!-- '' @ MANAGED_MARKER @ '' -->'' @ [CHR 0x0A] @
     ''<!-- This file is auto-managed by agents-link. Do not edit manually. -->'' @ [CHR 0x0A] @
     ''<!-- Source: AGENTS.md -->'' @ [CHR 0x0A] @
     [CHR 0x0A]"

text \<open>\<open>content.includes(m)\<close>: \<open>m\<close> occurs somewhere in \<open>content\<close>.\<close>

definition starts_with :: "string \<Rightarrow> string \<Rightarrow> bool" where
  "starts_with txt m = (take (length m) txt = m)"

fun str_includes :: "string \<Rightarrow> string \<Rightarrow> bool" where
  "str_includes [] m = (m = [])"
| "str_includes (c # cs) m = (if starts_with (c # cs) m then True else str_includes cs m)"

definition isManagedFile :: "path \<Rightarrow> fs \<Rightarrow> bool" where
  "isManagedFile filePath s =
     (case readFileSync filePath s of
        Inr txt \<Rightarrow> str_includes txt MANAGED_MARKER
      | Inl e \<Rightarrow> False)"

definition isSymlink :: "path \<Rightarrow> fs \<Rightarrow> bool" where
  "isSymlink filePath s =
     (case lstatSync filePath s of
        Inr stats \<Rightarrow> isSymbolicLink stats
      | Inl e \<Rightarrow> False)"

definition fileExists :: "path \<Rightarrow> fs \<Rightarrow> bool" where
  "fileExists filePath s =
     (case accessSync filePath s of
        Inr u \<Rightarrow> True
      | Inl e \<Rightarrow> False)"

definition ensureDir :: "path \<Rightarrow> fs \<Rightarrow> errno option \<times> fs" where
  "ensureDir filePath s =
     (let dir = path_dirname filePath in
      if \<not> fileExists dir s then mkdirSync_recursive dir s else (None, s))"

text \<open>What a call prints for its target: one line of the console, by its wording.\<close>

datatype report =
    SymlinkAlreadyExists
  | SymlinkPointsElsewhere
  | ManagedCopyAlreadyExists
  | FileExistsNotManaged
  | SymlinkCreated
  | ManagedCopyCreated
  | Failed errno
  | UnexpectedError errno
  | DoesNotExist
  | SymlinkNoSyncNeeded
  | NotManagedSkipping
  | Synced
  | SymlinkRemoved
  | ManagedCopyRemoved

text \<open>Lines 148 to 171 of \<open>createLink\<close>: the parent directories, then the symbolic
  link, then the managed copy. The result is the line printed and the value returned.\<close>

definition createLink_new :: "path \<Rightarrow> path \<Rightarrow> fs \<Rightarrow> (report \<times> bool) \<times> fs" where
  "createLink_new absoluteSource absoluteTarget s =
     (case ensureDir absoluteTarget s of
        (Some error, s1) \<Rightarrow> ((UnexpectedError error, False), s1)
      | (None, s1) \<Rightarrow>
          (let relativeSource = path_relative (path_dirname absoluteTarget) absoluteSource in
           case symlinkSync (False, relativeSource) absoluteTarget s1 of
             Inr s2 \<Rightarrow> ((SymlinkCreated, True), s2)
           | Inl symlinkError \<Rightarrow>
               (case readFileSync absoluteSource s1 of
                  Inl copyError \<Rightarrow> ((Failed copyError, False), s1)
                | Inr sourceContent \<Rightarrow>
                    (let managedContent = generateManagedHeader @ sourceContent in
                     case writeFileSync absoluteTarget managedContent s1 of
                       Inl copyError \<Rightarrow> ((Failed copyError, False), s1)
                     | Inr s2 \<Rightarrow> ((ManagedCopyCreated, True), s2)))))"

definition createLink :: "path \<Rightarrow> path \<Rightarrow> fs \<Rightarrow> (report \<times> bool) \<times> fs" where
  "createLink sourcePath targetPath s =
     (let absoluteSource = path_resolve1 sourcePath;
          absoluteTarget = path_resolve1 targetPath in
      if fileExists absoluteTarget s then
        (if isSymlink absoluteTarget s then
           (case readlinkSync absoluteTarget s of
              Inr linkTarget \<Rightarrow>
                (let resolvedLink =
                       path_resolve (path_dirname absoluteTarget) (fst linkTarget) (snd linkTarget) in
                 if resolvedLink = absoluteSource then ((SymlinkAlreadyExists, True), s)
                 else ((SymlinkPointsElsewhere, True), s))
            | Inl readlinkError \<Rightarrow>
                (case unlinkSync absoluteTarget s of
                   Inr s' \<Rightarrow> createLink_new absoluteSource absoluteTarget s'
                 | Inl unlinkError \<Rightarrow> createLink_new absoluteSource absoluteTarget s))
         else if isManagedFile absoluteTarget s then ((ManagedCopyAlreadyExists, True), s)
         else ((FileExistsNotManaged, True), s))
      else createLink_new absoluteSource absoluteTarget s)"

definition updateManagedCopy :: "path \<Rightarrow> path \<Rightarrow> fs \<Rightarrow> report \<times> fs" where
  "updateManagedCopy sourcePath targetPath s =
     (let absoluteSource = path_resolve1 sourcePath;
          absoluteTarget = path_resolve1 targetPath in
      if \<not> fileExists absoluteTarget s then (DoesNotExist, s)
      else if isSymlink absoluteTarget s then (SymlinkNoSyncNeeded, s)
      else if \<not> isManagedFile absoluteTarget s then (NotManagedSkipping, s)
      else (case readFileSync absoluteSource s of
              Inl error \<Rightarrow> (Failed error, s)
            | Inr sourceContent \<Rightarrow>
                (let managedContent = generateManagedHeader @ sourceContent in
                 case writeFileSync absoluteTarget managedContent s of
                   Inl error \<Rightarrow> (Failed error, s)
                 | Inr s' \<Rightarrow> (Synced, s'))))"

definition removeLink :: "path \<Rightarrow> fs \<Rightarrow> report \<times> fs" where
  "removeLink targetPath s =
     (let absoluteTarget = path_resolve1 targetPath in
      if \<not> fileExists absoluteTarget s then (DoesNotExist, s)
      else if isSymlink absoluteTarget s then
        (case unlinkSync absoluteTarget s of
           Inr s' \<Rightarrow> (SymlinkRemoved, s')
         | Inl error \<Rightarrow> (Failed error, s))
      else if isManagedFile absoluteTarget s then
        (case unlinkSync absoluteTarget s of
           Inr s' \<Rightarrow> (ManagedCopyRemoved, s')
         | Inl error \<Rightarrow> (Failed error, s))
      else (NotManagedSkipping, s))"

text \<open>
  The driver. \<open>createLink\<close> catches whatever its calls throw, so the \<open>catch\<close> of the
  loop of \<open>init\<close> has nothing to catch. Each loop is written for any list of targets;
  the program runs it on \<open>TARGET_FILES\<close>. Besides its result a run gives the lines it
  printed, one for each target it reached, in order.
\<close>

definition generateDefaultAgentsMd :: string where
  "generateDefaultAgentsMd =
     ''# AGENTS.md'' @ [CHR 0x0A] @ [CHR 0x0A] @
     ''A single source of truth for agents (and busy humans) working on this project.'' @
       [CHR 0x0A] @ [CHR 0x0A] @
     ''## Project Overview'' @ [CHR 0x0A] @ [CHR 0x0A] @
     ''Describe your project'' @ [CHR 0x27] @ ''s purpose, goals, and key information here.'' @
       [CHR 0x0A] @ [CHR 0x0A] @
     ''## Development Guidelines'' @ [CHR 0x0A] @ [CHR 0x0A] @
     ''Add your development guidelines, coding standards, and best practices here.'' @
       [CHR 0x0A] @ [CHR 0x0A] @
     ''## Testing'' @ [CHR 0x0A] @ [CHR 0x0A] @
     ''Describe your testing approach and requirements here.'' @ [CHR 0x0A] @ [CHR 0x0A] @
     ''## Contributing'' @ [CHR 0x0A] @ [CHR 0x0A] @
     ''Add contribution guidelines and workflow information here.'' @ [CHR 0x0A] @ [CHR 0x0A] @
     ''## Additional Notes'' @ [CHR 0x0A] @ [CHR 0x0A] @
     ''Add any other important information for agents and developers working on this project.'' @
       [CHR 0x0A]"

datatype driver_error =
    CreateSourceFailed errno path
  | TargetsFailed "string list list"
  | SourceNotFound path

type_synonym console = "(string list \<times> report) list"

fun init_loop ::
  "path \<Rightarrow> path \<Rightarrow> string list list \<Rightarrow> string list list \<Rightarrow> fs
     \<Rightarrow> (string list list \<times> console) \<times> fs" where
  "init_loop sourcePath cwd [] failures s = ((failures, []), s)"
| "init_loop sourcePath cwd (targetFile # rest) failures s =
     (case createLink sourcePath (path_join cwd targetFile) s of
        ((line, success), s1) \<Rightarrow>
          (case init_loop sourcePath cwd rest
                  (if \<not> success then failures @ [targetFile] else failures) s1 of
             ((failures', out), s2) \<Rightarrow> ((failures', (targetFile, line) # out), s2)))"

definition init_on ::
  "string list list \<Rightarrow> path \<Rightarrow> fs \<Rightarrow> ((driver_error + unit) \<times> console) \<times> fs" where
  "init_on targets cwd s =
     (let sourcePath = path_join cwd SOURCE_FILE in
      case (if \<not> fileExists sourcePath s
            then writeFileSync sourcePath generateDefaultAgentsMd s
            else Inr s) of
        Inl error \<Rightarrow> ((Inl (CreateSourceFailed error sourcePath), []), s)
      | Inr s0 \<Rightarrow>
          (case init_loop sourcePath cwd targets [] s0 of
             ((failures, out), s1) \<Rightarrow>
               ((if length failures > 0 then Inl (TargetsFailed failures) else Inr (), out), s1)))"

definition init :: "path \<Rightarrow> fs \<Rightarrow> ((driver_error + unit) \<times> console) \<times> fs" where
  "init cwd s = init_on TARGET_FILES cwd s"

fun sync_loop :: "path \<Rightarrow> path \<Rightarrow> string list list \<Rightarrow> fs \<Rightarrow> console \<times> fs" where
  "sync_loop sourcePath cwd [] s = ([], s)"
| "sync_loop sourcePath cwd (targetFile # rest) s =
     (case updateManagedCopy sourcePath (path_join cwd targetFile) s of
        (line, s1) \<Rightarrow>
          (case sync_loop sourcePath cwd rest s1 of
             (out, s2) \<Rightarrow> ((targetFile, line) # out, s2)))"

definition sync_on ::
  "string list list \<Rightarrow> path \<Rightarrow> fs \<Rightarrow> ((driver_error + unit) \<times> console) \<times> fs" where
  "sync_on targets cwd s =
     (let sourcePath = path_join cwd SOURCE_FILE in
      if \<not> fileExists sourcePath s then ((Inl (SourceNotFound sourcePath), []), s)
      else (case sync_loop sourcePath cwd targets s of
              (out, s1) \<Rightarrow> ((Inr (), out), s1)))"

definition sync :: "path \<Rightarrow> fs \<Rightarrow> ((driver_error + unit) \<times> console) \<times> fs" where
  "sync cwd s = sync_on TARGET_FILES cwd s"

fun clean_loop :: "path \<Rightarrow> string list list \<Rightarrow> fs \<Rightarrow> console \<times> fs" where
  "clean_loop cwd [] s = ([], s)"
| "clean_loop cwd (targetFile # rest) s =
     (case removeLink (path_join cwd targetFile) s of
        (line, s1) \<Rightarrow>
          (case clean_loop cwd rest s1 of
             (out, s2) \<Rightarrow> ((targetFile, line) # out, s2)))"

definition clean :: "path \<Rightarrow> fs \<Rightarrow> console \<times> fs" where
  "clean cwd s = clean_loop cwd TARGET_FILES s"

text \<open>The status that \<open>printTargets\<close> prints for one target.\<close>

datatype status = StatusSymlink | StatusManaged | StatusExistsNotManaged | StatusNotCreated

definition target_status :: "path \<Rightarrow> fs \<Rightarrow> status" where
  "target_status absolutePath s =
     (let exists = fileExists absolutePath s;
          isLink = isSymlink absolutePath s;
          isManaged = (if isLink then False
                       else if exists then isManagedFile absolutePath s
                       else False) in
      if isLink then StatusSymlink
      else if isManaged then StatusManaged
      else if exists then StatusExistsNotManaged
      else StatusNotCreated)"

definition printTargets :: "path \<Rightarrow> fs \<Rightarrow> (string list \<times> status) list" where
  "printTargets cwd s =
     map (\<lambda>targetFile. (targetFile, target_status (path_join cwd targetFile) s)) TARGET_FILES"


section \<open>Notions used to state the properties\<close>

text \<open>A line that reports a failure of its target: the two lines that \<open>createLink\<close>
  prints with a cross, \<open>failed: ...\<close> and \<open>unexpected error: ...\<close>. A target that is
  skipped, or already in place, is not a failure.\<close>

fun is_failure :: "report \<Rightarrow> bool" where
  "is_failure (Failed e) = True"
| "is_failure (UnexpectedError e) = True"
| "is_failure line = False"

text \<open>An entry that is the user's own: a regular file whose text cannot be read or
  does not contain the marker, or a directory. A symbolic link is not one.\<close>

fun foreign :: "node \<Rightarrow> bool" where
  "foreign (File c r w) = (\<not> (r \<and> str_includes (utf8_decode c) MANAGED_MARKER))"
| "foreign (Dir w) = True"
| "foreign (Link a segs) = False"

text \<open>Every target materialized in turn, each on the file system the one before has
  left, whatever the one before has reported: the lines printed and the final file
  system. This is what \<open>init\<close> is meant to do with its targets; it is compared with
  \<open>init_loop\<close> below.\<close>

fun materialize_each :: "path \<Rightarrow> path \<Rightarrow> string list list \<Rightarrow> fs \<Rightarrow> console \<times> fs" where
  "materialize_each sourcePath cwd [] s = ([], s)"
| "materialize_each sourcePath cwd (t # ts) s =
     (case createLink sourcePath (path_join cwd t) s of
        ((line, success), s1) \<Rightarrow>
          (case materialize_each sourcePath cwd ts s1 of
             (out, s2) \<Rightarrow> ((t, line) # out, s2)))"

text \<open>A resolved path has no segment \<open>..\<close>, \<open>.\<close> or empty.\<close>

definition normal :: "path \<Rightarrow> bool" where
  "normal p = (''..'' \<notin> set p \<and> ''.'' \<notin> set p \<and> [] \<notin> set p)"


section \<open>Worlds used as examples\<close>

text \<open>A project directory \<open>/w\<close> with the source \<open>AGENTS.md\<close> and, at \<open>CLAUDE.md\<close>: a
  file of the user's own; a symbolic link to a file that is not there, before and after
  \<open>createLink\<close>, and after the source has been edited as well; a symbolic link into a
  directory that is not there; a symbolic link to a managed copy kept under another name. Then a
  project with a managed copy and no source; one where a file \<open>.cursor\<close> is in the way
  of a directory, before and after \<open>init\<close>, and what \<open>init\<close> prints there; an empty
  project, with the directories and then the link that \<open>createLink\<close> makes for
  \<open>.cursor/rules/AGENTS.md\<close>; a project on a platform without symbolic links, before
  and after \<open>createLink\<close>, after the source has been edited and after
  \<open>updateManagedCopy\<close>; and such a project whose source is one byte that is not UTF-8,
  before and after \<open>createLink\<close>.\<close>

definition foreign_world :: fs where
  "foreign_world =
     \<lparr>nodes = [[] \<mapsto> Dir True, [''w''] \<mapsto> Dir True,
               [''w'', ''AGENTS.md''] \<mapsto> File ''Hello'' True True,
               [''w'', ''CLAUDE.md''] \<mapsto> File ''custom rules'' True True],
      symlinks_ok = True\<rparr>"

definition dangling_world :: fs where
  "dangling_world =
     \<lparr>nodes = [[] \<mapsto> Dir True, [''w''] \<mapsto> Dir True,
               [''w'', ''AGENTS.md''] \<mapsto> File ''Hello'' True True,
               [''w'', ''CLAUDE.md''] \<mapsto> Link False [''gone.md'']],
      symlinks_ok = True\<rparr>"

definition written_through :: fs where
  "written_through =
     dangling_world\<lparr>nodes := (nodes dangling_world)
        ([''w'', ''gone.md''] \<mapsto> File (generateManagedHeader @ ''Hello'') True True)\<rparr>"

definition written_through_edited :: fs where
  "written_through_edited =
     written_through\<lparr>nodes := (nodes written_through)
        ([''w'', ''AGENTS.md''] \<mapsto> File ''Bye'' True True)\<rparr>"

definition dangling_deep_world :: fs where
  "dangling_deep_world =
     \<lparr>nodes = [[] \<mapsto> Dir True, [''w''] \<mapsto> Dir True,
               [''w'', ''AGENTS.md''] \<mapsto> File ''Hello'' True True,
               [''w'', ''CLAUDE.md''] \<mapsto> Link False [''attic'', ''gone.md'']],
      symlinks_ok = True\<rparr>"

definition elsewhere_world :: fs where
  "elsewhere_world =
     \<lparr>nodes = [[] \<mapsto> Dir True, [''w''] \<mapsto> Dir True,
               [''w'', ''AGENTS.md''] \<mapsto> File ''Hello'' True True,
               [''w'', ''old.md''] \<mapsto> File (generateManagedHeader @ ''Old'') True True,
               [''w'', ''CLAUDE.md''] \<mapsto> Link False [''old.md'']],
      symlinks_ok = True\<rparr>"

definition sourceless_world :: fs where
  "sourceless_world =
     \<lparr>nodes = [[] \<mapsto> Dir True, [''w''] \<mapsto> Dir True,
               [''w'', ''CLAUDE.md''] \<mapsto> File (generateManagedHeader @ ''Old'') True True],
      symlinks_ok = False\<rparr>"

definition mixed_world :: fs where
  "mixed_world =
     \<lparr>nodes = [[] \<mapsto> Dir True, [''w''] \<mapsto> Dir True,
               [''w'', ''AGENTS.md''] \<mapsto> File ''Hello'' True True,
               [''w'', ''CLAUDE.md''] \<mapsto> File ''custom rules'' True True,
               [''w'', ''.cursor''] \<mapsto> File ''notes'' True True],
      symlinks_ok = True\<rparr>"

definition mixed_world_after :: fs where
  "mixed_world_after =
     mixed_world\<lparr>nodes := (nodes mixed_world)
        ([''w'', ''GEMINI.md''] \<mapsto> Link False [''AGENTS.md''],
         [''w'', ''.cursorrules''] \<mapsto> Link False [''AGENTS.md''],
         [''w'', ''.windsurf''] \<mapsto> Dir True,
         [''w'', ''.windsurf'', ''rules''] \<mapsto> Dir True,
         [''w'', ''.windsurf'', ''rules'', ''AGENTS.md'']
           \<mapsto> Link False [''..'', ''..'', ''AGENTS.md''],
         [''w'', ''.github''] \<mapsto> Dir True,
         [''w'', ''.github'', ''copilot-instructions.md'']
           \<mapsto> Link False [''..'', ''AGENTS.md''],
         [''w'', ''.rules''] \<mapsto> Link False [''AGENTS.md''])\<rparr>"

definition mixed_out :: console where
  "mixed_out =
     [([''CLAUDE.md''], FileExistsNotManaged),
      ([''GEMINI.md''], SymlinkCreated),
      ([''.cursor'', ''rules'', ''AGENTS.md''], UnexpectedError ENOTDIR),
      ([''.cursorrules''], SymlinkCreated),
      ([''.windsurf'', ''rules'', ''AGENTS.md''], SymlinkCreated),
      ([''.github'', ''copilot-instructions.md''], SymlinkCreated),
      ([''.rules''], SymlinkCreated)]"

definition bare_world :: fs where
  "bare_world = \<lparr>nodes = [[] \<mapsto> Dir True, [''w''] \<mapsto> Dir True], symlinks_ok = True\<rparr>"

definition bare_dirs :: fs where
  "bare_dirs =
     bare_world\<lparr>nodes := (nodes bare_world)
       ([''w'', ''.cursor''] \<mapsto> Dir True, [''w'', ''.cursor'', ''rules''] \<mapsto> Dir True)\<rparr>"

definition bare_linked :: fs where
  "bare_linked =
     bare_dirs\<lparr>nodes := (nodes bare_dirs)
       (path_resolve1 [''w'', ''.cursor'', ''rules'', ''AGENTS.md'']
          \<mapsto> Link False [''..'', ''..'', ''AGENTS.md''])\<rparr>"

definition nolink_world :: fs where
  "nolink_world =
     \<lparr>nodes = [[] \<mapsto> Dir True, [''w''] \<mapsto> Dir True,
               [''w'', ''AGENTS.md''] \<mapsto> File ''Hello'' True True],
      symlinks_ok = False\<rparr>"

definition nolink_copied :: fs where
  "nolink_copied =
     nolink_world\<lparr>nodes := (nodes nolink_world)
        ([''w'', ''CLAUDE.md''] \<mapsto> File (generateManagedHeader @ ''Hello'') True True)\<rparr>"







section \<open>Basic facts about paths\<close>

lemmas path_defs = path_resolve1_def path_resolve_def path_join_def path_dirname_def
  path_relative_def seg_step_def link_start_def

lemma normal_nil: "normal []"
  by (simp add: normal_def)

lemma normal_seg_step: "normal cur \<Longrightarrow> normal (seg_step cur x)"
  by (auto simp: normal_def seg_step_def dest: in_set_butlastD)

lemma normal_foldl: "normal cur \<Longrightarrow> normal (foldl seg_step cur segs)"
  by (induction segs arbitrary: cur) (simp_all add: normal_seg_step)

lemma normal_resolve1: "normal (path_resolve1 p)"
  by (simp add: path_resolve1_def path_resolve_def normal_foldl normal_nil)

lemma foldl_normal: "normal t \<Longrightarrow> foldl seg_step base t = base @ t"
  by (induction t arbitrary: base) (auto simp: normal_def seg_step_def)

lemma foldl_ups: "foldl seg_step base (replicate n ''..'') = take (length base - n) base"
proof (induction n arbitrary: base)
  case 0
  then show ?case by simp
next
  case (Suc n)
  have "seg_step base ''..'' = butlast base" by (simp add: seg_step_def)
  then show ?case using Suc.IH [of "butlast base"]
    by (simp add: butlast_conv_take)
qed

lemma strip_common_split:
  "strip_common f t = (f', t') \<Longrightarrow> \<exists>c. f = c @ f' \<and> t = c @ t'"
proof (induction f t rule: strip_common.induct)
  case (1 a as b bs)
  show ?case
  proof (cases "a = b")
    case True
    with 1 obtain c where "as = c @ f'" "bs = c @ t'" by auto
    with True have "a # as = (a # c) @ f' \<and> b # bs = (a # c) @ t'" by simp
    then show ?thesis by blast
  next
    case False
    with 1 show ?thesis by auto
  qed
qed auto

text \<open>The text that \<open>createLink\<close> gives a link leads back to the source: resolving
  \<open>path.relative(from, to)\<close> from \<open>from\<close> gives \<open>to\<close>.\<close>

lemma resolve_relative:
  assumes "normal to"
  shows "path_resolve from False (path_relative from to) = to"
proof -
  obtain f' t' where sc: "strip_common from to = (f', t')" by (metis prod.exhaust)
  then obtain c where c: "from = c @ f'" "to = c @ t'"
    using strip_common_split by blast
  have nt: "normal t'" using assms c by (simp add: normal_def)
  have "path_resolve from False (path_relative from to)
          = foldl seg_step (foldl seg_step from (replicate (length f') ''..'')) t'"
    by (simp add: path_resolve_def path_relative_def sc)
  also have "\<dots> = foldl seg_step c t'" by (simp add: foldl_ups c)
  also have "\<dots> = to" using nt c by (simp add: foldl_normal)
  finally show ?thesis .
qed


section \<open>Basic facts about the calls\<close>

declare mkdirp.simps [simp del]

declare follow.simps [simp del]

lemmas fs_defs = follow.simps fileExists_def accessSync_def statSync_def symloop_max_def isSymlink_def
  lstatSync_def isSymbolicLink_def isManagedFile_def readFileSync_def readlinkSync_def
  writeFileSync_def create_entry_def symlinkSync_def unlinkSync_def ensureDir_def
  mkdirSync_recursive_def mkdirSync1_def mkdir_exists_def mkdir_retry_def mkdirp.simps
  lookup_errno_def

lemmas utf8_defs = lead_len_def second_range_def replacement_def Let_def

lemma symloop_max_Suc: "symloop_max = Suc 39"
  by (simp add: symloop_max_def)

lemma follow_not_link:
  "nodes s p = Some n \<Longrightarrow> \<not> isSymbolicLink n \<Longrightarrow> follow k s p [] = Inr p"
  by (cases n) (simp_all add: isSymbolicLink_def follow.simps)

lemma follow_absent: "nodes s p = None \<Longrightarrow> follow k s p [] = Inr p"
  by (simp add: follow.simps)

lemma follow_link_step:
  "nodes s p = Some (Link a txt) \<Longrightarrow> a \<or> txt \<noteq> [] \<Longrightarrow>
     follow (Suc k) s p [] = follow k s (link_start a p) txt"
  by (auto simp: follow.simps)

text \<open>A walk either fails or comes to the place that the segments name, read as
  \<open>path.resolve\<close> reads them.\<close>

lemma follow_walk:
  "(\<exists>e. follow k s cur segs = Inl e)
   \<or> follow k s cur segs = follow k s (foldl seg_step cur segs) []"
proof (induction segs arbitrary: cur)
  case Nil
  show ?case by simp
next
  case (Cons seg rest)
  show ?case
  proof (cases "nodes s cur")
    case None
    then show ?thesis by (simp add: follow.simps)
  next
    case (Some n)
    show ?thesis
    proof (cases n)
      case (Dir w)
      with Some Cons.IH [of "seg_step cur seg"] show ?thesis by (simp add: follow.simps)
    next
      case (File c r w)
      with Some show ?thesis by (simp add: follow.simps)
    next
      case (Link a lt)
      with Some show ?thesis
        by (auto simp: follow.simps(2) split: sum.splits option.splits)
    qed
  qed
qed

lemma follow_self_loop:
  "nodes s p = Some (Link a txt) \<Longrightarrow> foldl seg_step (link_start a p) txt = p \<Longrightarrow>
     \<exists>e. follow k s p [] = Inl e"
proof (induction k)
  case 0
  then show ?case by (simp add: follow.simps)
next
  case (Suc k)
  show ?case
  proof (cases "\<not> a \<and> txt = []")
    case True
    with Suc.prems show ?thesis by (simp add: follow.simps)
  next
    case False
    then have "follow (Suc k) s p [] = follow k s (link_start a p) txt"
      using Suc.prems(1) by (auto simp: follow.simps)
    with follow_walk [of k s "link_start a p" "txt"] Suc show ?thesis by auto
  qed
qed

lemma follow_result_not_link:
  "follow k s cur segs = Inr q \<Longrightarrow> nodes s q \<noteq> Some (Link a txt)"
proof (induction k s cur segs rule: follow.induct)
  case (1 k s cur)
  then show ?case
    by (auto simp: follow.simps split: option.splits node.splits if_splits nat.splits)
next
  case (2 k s cur seg rest)
  then show ?case
    by (auto simp: follow.simps split: option.splits node.splits sum.splits)
qed

lemma fileExists_not_link:
  "nodes s p = Some n \<Longrightarrow> \<not> isSymbolicLink n \<Longrightarrow> fileExists p s"
  by (simp add: fileExists_def accessSync_def follow_not_link)

lemma fileExists_absent: "nodes s p = None \<Longrightarrow> \<not> fileExists p s"
  by (simp add: fileExists_def accessSync_def follow_absent)

lemma isSymlink_iff: "isSymlink p s = (\<exists>a segs. nodes s p = Some (Link a segs))"
  by (auto simp: isSymlink_def lstatSync_def isSymbolicLink_def
           split: option.splits node.splits)

text \<open>In the model \<open>readlinkSync\<close> cannot fail on a path that \<open>isSymlink\<close> has just
  found to be a link, so the \<open>catch\<close> of \<open>createLink\<close> that unlinks a broken link is
  entered by no file system.\<close>

lemma isSymlink_readlink: "isSymlink T s \<Longrightarrow> \<exists>l. readlinkSync T s = Inr l"
  by (auto simp: isSymlink_iff readlinkSync_def)

lemma isManagedFile_File:
  "nodes s p = Some (File c r w) \<Longrightarrow>
     isManagedFile p s = (r \<and> str_includes (utf8_decode c) MANAGED_MARKER)"
  by (simp add: isManagedFile_def readFileSync_def follow_not_link isSymbolicLink_def)

lemma isManagedFile_Dir: "nodes s p = Some (Dir w) \<Longrightarrow> \<not> isManagedFile p s"
  by (simp add: isManagedFile_def readFileSync_def follow_not_link isSymbolicLink_def)

lemma create_entry_Inr:
  assumes "create_entry q n s = Inr s'"
  shows "s' = s\<lparr>nodes := (nodes s)(q \<mapsto> n)\<rparr>"
    and "nodes s (path_dirname q) = Some (Dir True)"
  using assms
  by (auto simp: create_entry_def split: option.splits node.splits if_splits)

lemma writeFileSync_follow:
  assumes "writeFileSync T txt s = Inr s'"
  obtains q where "follow symloop_max s T [] = Inr q"
  using assms by (auto simp: writeFileSync_def split: sum.splits)

lemma writeFileSync_Inr:
  assumes "writeFileSync T txt s = Inr s'"
  obtains q n where "follow symloop_max s T [] = Inr q"
    and "s' = s\<lparr>nodes := (nodes s)(q \<mapsto> n)\<rparr>"
proof -
  from assms obtain q where fq: "follow symloop_max s T [] = Inr q"
    by (rule writeFileSync_follow)
  show ?thesis
  proof (cases "nodes s q")
    case None
    with assms fq have "create_entry q (File txt True True) s = Inr s'"
      by (simp add: writeFileSync_def)
    then have "s' = s\<lparr>nodes := (nodes s)(q \<mapsto> File txt True True)\<rparr>"
      by (rule create_entry_Inr)
    with fq that show ?thesis by blast
  next
    case (Some m)
    with assms fq obtain c r where "s' = s\<lparr>nodes := (nodes s)(q \<mapsto> File txt r True)\<rparr>"
      by (cases m) (auto simp: writeFileSync_def split: if_splits)
    with fq that show ?thesis by blast
  qed
qed

text \<open>\<open>mkdir\<close> only adds directories, at places where there was nothing, none of them
  the root and none deeper than the directory asked for.\<close>

lemma mkdirSync1_nodes:
  assumes "mkdirSync1 p s = Inr s'"
  shows "s' = s\<lparr>nodes := (nodes s)(p \<mapsto> Dir True)\<rparr>" and "nodes s p = None" and "p \<noteq> []"
proof -
  from assms show n: "nodes s p = None"
    by (auto simp: mkdirSync1_def split: option.splits)
  with assms have c: "create_entry p (Dir True) s = Inr s'"
    by (simp add: mkdirSync1_def)
  then show "s' = s\<lparr>nodes := (nodes s)(p \<mapsto> Dir True)\<rparr>"
    by (rule create_entry_Inr)
  from create_entry_Inr(2) [OF c] n show "p \<noteq> []"
    by (auto simp: path_dirname_def)
qed

lemma mkdir_retry_nodes:
  assumes "mkdir_retry below p s = (e, s')"
  shows "s' = s \<or> (s' = s\<lparr>nodes := (nodes s)(p \<mapsto> Dir True)\<rparr> \<and> nodes s p = None \<and> p \<noteq> [])"
proof (cases "mkdirSync1 p s")
  case (Inl err)
  with assms show ?thesis by (auto simp: mkdir_retry_def split: if_splits)
next
  case (Inr s1)
  with assms have "s' = s1" by (simp add: mkdir_retry_def)
  with mkdirSync1_nodes [OF Inr] show ?thesis by simp
qed

lemma mkdirp_nodes:
  "mkdirp below p s = (e, s') \<Longrightarrow>
     symlinks_ok s' = symlinks_ok s \<and>
     (\<forall>q. nodes s' q = nodes s q \<or>
          (nodes s q = None \<and> nodes s' q = Some (Dir True)
           \<and> q \<noteq> [] \<and> length q \<le> length p))"
proof (induction below p s arbitrary: e s' rule: mkdirp.induct)
  case (1 below p s)
  show ?case
  proof (cases "mkdirSync1 p s")
    case (Inr s1)
    with "1.prems" have "s' = s1" by (simp add: mkdirp.simps)
    with mkdirSync1_nodes [OF Inr] show ?thesis by auto
  next
    case (Inl err)
    show ?thesis
    proof (cases "err = ENOENT \<and> p \<noteq> []")
      case False
      with Inl "1.prems" have "s' = s"
        by (auto simp: mkdirp.simps split: if_splits)
      then show ?thesis by simp
    next
      case True
      obtain e1 s1 where up: "mkdirp True (path_dirname p) s = (e1, s1)"
        by (metis prod.exhaust)
      have ih: "symlinks_ok s1 = symlinks_ok s \<and>
         (\<forall>q. nodes s1 q = nodes s q \<or>
            (nodes s q = None \<and> nodes s1 q = Some (Dir True)
             \<and> q \<noteq> [] \<and> length q \<le> length (path_dirname p)))"
        using "1.IH" [OF Inl _ _ _ up] True by simp
      have le: "length (path_dirname p) \<le> length p"
        by (simp add: path_dirname_def)
      show ?thesis
      proof (cases e1)
        case (Some e')
        with Inl True up "1.prems" have "s' = s1"
          by (simp add: mkdirp.simps)
        with ih le show ?thesis by (metis le_trans)
      next
        case None
        with Inl True up "1.prems" have r: "mkdir_retry below p s1 = (e, s')"
          by (simp add: mkdirp.simps)
        from mkdir_retry_nodes [OF r] show ?thesis
        proof
          assume "s' = s1"
          with ih le show ?thesis by (metis le_trans)
        next
          assume a: "s' = s1\<lparr>nodes := (nodes s1)(p \<mapsto> Dir True)\<rparr> \<and> nodes s1 p = None \<and> p \<noteq> []"
          have np: "nodes s p = None" using a ih by (metis option.distinct(1))
          show ?thesis
          proof (intro conjI allI)
            show "symlinks_ok s' = symlinks_ok s" using a ih by simp
          next
            fix q
            show "nodes s' q = nodes s q \<or>
              (nodes s q = None \<and> nodes s' q = Some (Dir True) \<and> q \<noteq> [] \<and> length q \<le> length p)"
            proof (cases "q = p")
              case True
              with a np show ?thesis by simp
            next
              case False
              with a have "nodes s' q = nodes s1 q" by simp
              with ih le show ?thesis by (metis le_trans)
            qed
          qed
        qed
      qed
    qed
  qed
qed

lemma ensureDir_nodes:
  assumes "ensureDir T s = (e, s1)"
  shows "symlinks_ok s1 = symlinks_ok s"
    and "nodes s1 p = nodes s p \<or>
          (nodes s p = None \<and> nodes s1 p = Some (Dir True)
           \<and> p \<noteq> [] \<and> length p \<le> length (path_dirname T))"
proof -
  have "symlinks_ok s1 = symlinks_ok s \<and>
     (\<forall>p. nodes s1 p = nodes s p \<or>
          (nodes s p = None \<and> nodes s1 p = Some (Dir True)
           \<and> p \<noteq> [] \<and> length p \<le> length (path_dirname T)))"
  proof (cases "fileExists (path_dirname T) s")
    case True
    with assms show ?thesis by (simp add: ensureDir_def)
  next
    case False
    with assms have "mkdirp False (path_dirname T) s = (e, s1)"
      by (simp add: ensureDir_def mkdirSync_recursive_def)
    from mkdirp_nodes [OF this] show ?thesis by simp
  qed
  then show "symlinks_ok s1 = symlinks_ok s"
    and "nodes s1 p = nodes s p \<or>
          (nodes s p = None \<and> nodes s1 p = Some (Dir True)
           \<and> p \<noteq> [] \<and> length p \<le> length (path_dirname T))"
    by blast+
qed

lemma ensureDir_keeps_absent:
  assumes "ensureDir T s = (e, s1)" and "nodes s T = None"
  shows "nodes s1 T = None"
proof (cases "T = []")
  case True
  with ensureDir_nodes(2) [OF assms(1), of T] assms(2) show ?thesis by auto
next
  case False
  then have "\<not> length T \<le> length (path_dirname T)"
    by (cases T rule: rev_cases) (simp_all add: path_dirname_def)
  then show ?thesis using ensureDir_nodes(2) [OF assms(1), of T] assms(2) by auto
qed

text \<open>The header carries the marker, and it is ASCII, so a text that starts with it is
  managed, before and after it has been written and read again.\<close>

lemma str_includes_prefix: "str_includes (m @ b) m"
proof (cases "m @ b")
  case Nil
  then show ?thesis by simp
next
  case (Cons x xs)
  have "starts_with (m @ b) m" by (simp add: starts_with_def)
  with Cons show ?thesis by simp
qed

lemma str_includes_mid: "str_includes (a @ m @ b) m"
  by (induction a) (simp_all add: str_includes_prefix)

lemma header_has_marker: "str_includes (generateManagedHeader @ txt) MANAGED_MARKER"
proof -
  have "generateManagedHeader @ txt = ''<!-- '' @ MANAGED_MARKER @
     ('' -->'' @ [CHR 0x0A] @
     ''<!-- This file is auto-managed by agents-link. Do not edit manually. -->'' @ [CHR 0x0A] @
     ''<!-- Source: AGENTS.md -->'' @ [CHR 0x0A] @
     [CHR 0x0A] @ txt)"
    by (simp add: generateManagedHeader_def)
  then show ?thesis by (simp only: str_includes_mid)
qed


lemma good_prefix_0: "good_prefix 0 lo hi bs = 0"
  by (cases bs) simp_all

lemma utf8_decode_ascii:
  "list_all (\<lambda>b. of_char b < (128::nat)) a \<Longrightarrow> utf8_decode (a @ b) = a @ utf8_decode b"
  by (induction a) (simp_all add: lead_len_def Let_def good_prefix_0)

lemma header_ascii: "list_all (\<lambda>b. of_char b < (128::nat)) generateManagedHeader"
  by (simp add: generateManagedHeader_def MANAGED_MARKER_def)

lemma utf8_decode_header:
  "utf8_decode (generateManagedHeader @ txt) = generateManagedHeader @ utf8_decode txt"
  using header_ascii by (rule utf8_decode_ascii)

text \<open>What \<open>createLink\<close> returns says whether the line it printed is a failure.\<close>

lemma createLink_new_success:
  "createLink_new S T s = ((line, ok), s') \<Longrightarrow> ok = (\<not> is_failure line)"
  by (auto simp: createLink_new_def Let_def split: prod.splits option.splits sum.splits)

lemma createLink_success:
  "createLink src tgt s = ((line, ok), s') \<Longrightarrow> ok = (\<not> is_failure line)"
  by (auto simp: createLink_def Let_def split: if_splits sum.splits
           dest: createLink_new_success)






section \<open>Files of the user are left alone\<close>

text \<open>
  C1. Let the target be there before the call and be the user's own: a regular file
  whose text does not contain the marker, or that cannot be read (or a directory). Then
  \<open>createLink\<close>, \<open>updateManagedCopy\<close> and \<open>removeLink\<close> each return the file system
  they were given: the text of the target is the same byte for byte, the target is not
  deleted, and nothing else has changed either. Each reports that it skipped the target,
  and \<open>createLink\<close> returns \<open>true\<close>. (A target that is a symbolic link has no text of
  its own; what happens to links is the subject of C4 and C7.)
\<close>

theorem non_destruction:
  assumes "nodes s (path_resolve1 targetPath) = Some n"
    and "foreign n"
  shows "createLink sourcePath targetPath s = ((FileExistsNotManaged, True), s)
       \<and> updateManagedCopy sourcePath targetPath s = (NotManagedSkipping, s)
       \<and> removeLink targetPath s = (NotManagedSkipping, s)"
proof -
  let ?T = "path_resolve1 targetPath"
  have nl: "\<not> isSymbolicLink n"
    using assms(2) by (cases n) (simp_all add: isSymbolicLink_def)
  have ex: "fileExists ?T s"
    using assms(1) nl by (rule fileExists_not_link)
  have ns: "\<not> isSymlink ?T s"
    using assms by (cases n) (simp_all add: isSymlink_iff)
  have nm: "\<not> isManagedFile ?T s"
    using assms by (cases n) (simp_all add: isManagedFile_File isManagedFile_Dir)
  show ?thesis
    using ex ns nm by (simp add: createLink_def updateManagedCopy_def removeLink_def)
qed

theorem non_destruction_witness:
  "nodes foreign_world (path_resolve1 [''w'', ''CLAUDE.md''])
     = Some (File ''custom rules'' True True)
   \<and> foreign (File ''custom rules'' True True)
   \<and> createLink [''w'', ''AGENTS.md''] [''w'', ''CLAUDE.md''] foreign_world
        = ((FileExistsNotManaged, True), foreign_world)
   \<and> updateManagedCopy [''w'', ''AGENTS.md''] [''w'', ''CLAUDE.md''] foreign_world
        = (NotManagedSkipping, foreign_world)
   \<and> removeLink [''w'', ''CLAUDE.md''] foreign_world = (NotManagedSkipping, foreign_world)"
proof -
  have h1: "nodes foreign_world (path_resolve1 [''w'', ''CLAUDE.md''])
              = Some (File ''custom rules'' True True)"
    by (simp add: foreign_world_def path_defs)
  have "utf8_decode ''custom rules'' = ''custom rules''"
    by (simp add: utf8_defs)
  then have h2: "foreign (File ''custom rules'' True True)"
    by (simp add: MANAGED_MARKER_def starts_with_def)
  from non_destruction [OF h1 h2, of "[''w'', ''AGENTS.md'']"] h1 h2 show ?thesis
    by blast
qed


section \<open>A symbolic link that leads nowhere\<close>

text \<open>
  In \<open>dangling_world\<close> the target \<open>/w/CLAUDE.md\<close> is a symbolic link to \<open>gone.md\<close>, which
  is not there. \<open>fileExists\<close> asks \<open>access\<close>, which follows the link and fails, so every
  operation takes the target for a path with nothing at it, although \<open>isSymlink\<close>, which
  asks \<open>lstat\<close>, knows better.
\<close>

text \<open>
  This holds of every symbolic link that \<open>fileExists\<close> does not find: \<open>createLink\<close>
  never creates a link there and, whatever else it does, leaves the stale link at the
  target; \<open>updateManagedCopy\<close> and \<open>removeLink\<close> report that the target does not
  exist and change nothing; \<open>printTargets\<close> prints the target as a symbolic link.
\<close>

lemma createLink_new_keeps_link:
  assumes l: "nodes s T = Some (Link a segs)"
    and run: "createLink_new S T s = (res, s2)"
  shows "nodes s2 T = Some (Link a segs) \<and> fst res \<noteq> SymlinkCreated"
proof -
  obtain e s1 where ens: "ensureDir T s = (e, s1)" by (metis prod.exhaust)
  have l1: "nodes s1 T = Some (Link a segs)"
    using ensureDir_nodes(2) [OF ens, of T] l by auto
  show ?thesis
  proof (cases e)
    case (Some err)
    with run ens l1 show ?thesis by (auto simp: createLink_new_def)
  next
    case None
    let ?rel = "path_relative (path_dirname T) S"
    have nosym: "\<exists>err. symlinkSync (False, ?rel) T s1 = Inl err"
      using l1 by (simp add: symlinkSync_def)
    then obtain err where sy: "symlinkSync (False, ?rel) T s1 = Inl err" ..
    show ?thesis
    proof (cases "readFileSync S s1")
      case (Inl e1)
      with run ens None sy l1 show ?thesis by (auto simp: createLink_new_def)
    next
      case (Inr c)
      show ?thesis
      proof (cases "writeFileSync T (generateManagedHeader @ c) s1")
        case (Inl e2)
        with run ens None sy Inr l1 show ?thesis by (auto simp: createLink_new_def)
      next
        case w: (Inr s2')
        then obtain q n where fq: "follow symloop_max s1 T [] = Inr q"
          and s2': "s2' = s1\<lparr>nodes := (nodes s1)(q \<mapsto> n)\<rparr>"
          by (rule writeFileSync_Inr)
        from follow_result_not_link [OF fq] l1 have "q \<noteq> T" by auto
        with s2' l1 have "nodes s2' T = Some (Link a segs)" by simp
        with run ens None sy Inr w show ?thesis by (auto simp: createLink_new_def)
      qed
    qed
  qed
qed

lemma dangling_link_survives:
  assumes "nodes s (path_resolve1 targetPath) = Some (Link a segs)"
    and "\<not> fileExists (path_resolve1 targetPath) s"
  shows "nodes (snd (createLink sourcePath targetPath s)) (path_resolve1 targetPath)
           = Some (Link a segs)"
    and "fst (fst (createLink sourcePath targetPath s)) \<noteq> SymlinkCreated"
    and "updateManagedCopy sourcePath targetPath s = (DoesNotExist, s)"
    and "removeLink targetPath s = (DoesNotExist, s)"
    and "target_status (path_resolve1 targetPath) s = StatusSymlink"
proof -
  let ?T = "path_resolve1 targetPath" and ?S = "path_resolve1 sourcePath"
  have c: "createLink sourcePath targetPath s = createLink_new ?S ?T s"
    using assms(2) by (simp add: createLink_def)
  obtain res s2 where r: "createLink_new ?S ?T s = (res, s2)" by (metis prod.exhaust)
  from createLink_new_keeps_link [OF assms(1) r] c r
  show "nodes (snd (createLink sourcePath targetPath s)) ?T = Some (Link a segs)"
    and "fst (fst (createLink sourcePath targetPath s)) \<noteq> SymlinkCreated"
    by simp_all
  show "updateManagedCopy sourcePath targetPath s = (DoesNotExist, s)"
    using assms(2) by (simp add: updateManagedCopy_def)
  show "removeLink targetPath s = (DoesNotExist, s)"
    using assms(2) by (simp add: removeLink_def)
  show "target_status ?T s = StatusSymlink"
    using assms(1) by (simp add: target_status_def isSymlink_def lstatSync_def isSymbolicLink_def)
qed

text \<open>
  C2. The claim: \<open>createLink\<close> deletes the stale link and creates a fresh link (or a
  managed copy) at the target path itself. The code, run on \<open>dangling_world\<close>: the branch
  that unlinks a broken link is not reached; \<open>symlinkSync\<close> fails because the stale link
  is in the way; the managed copy is written through the stale link, so it appears at
  \<open>/w/gone.md\<close>, and the stale link is still at the target.
\<close>

theorem createLink_dangling_not_repaired:
  "createLink [''w'', ''AGENTS.md''] [''w'', ''CLAUDE.md''] dangling_world =
     ((ManagedCopyCreated, True),
      dangling_world\<lparr>nodes := (nodes dangling_world)
         ([''w'', ''gone.md''] \<mapsto> File (generateManagedHeader @ ''Hello'') True True)\<rparr>)"
  by (simp add: dangling_world_def createLink_def createLink_new_def fs_defs path_defs
        utf8_defs eval_nat_numeral)

text \<open>
  When the directory that the stale link names is not there either, the copy cannot be
  written and \<open>createLink\<close> fails.
\<close>

lemma createLink_dangling_fails:
  "createLink [''w'', ''AGENTS.md''] [''w'', ''CLAUDE.md''] dangling_deep_world =
     ((Failed ENOENT, False), dangling_deep_world)"
  by (simp add: dangling_deep_world_def createLink_def createLink_new_def fs_defs path_defs
        utf8_defs eval_nat_numeral)

text \<open>
  C3. The claim: a dangling symbolic link is classified as a symbolic link, not as
  absent. The code, on \<open>dangling_world\<close>: \<open>isSymlink\<close> holds of the target but
  \<open>fileExists\<close> does not, and \<open>updateManagedCopy\<close>, which asks \<open>fileExists\<close> first,
  reports that the target does not exist. \<open>printTargets\<close>, which asks \<open>isSymlink\<close>
  first, prints the same target as a symbolic link.
\<close>

theorem dangling_classified_absent:
  "isSymlink [''w'', ''CLAUDE.md''] dangling_world
   \<and> \<not> fileExists [''w'', ''CLAUDE.md''] dangling_world
   \<and> updateManagedCopy [''w'', ''AGENTS.md''] [''w'', ''CLAUDE.md''] dangling_world
        = (DoesNotExist, dangling_world)
   \<and> target_status [''w'', ''CLAUDE.md''] dangling_world = StatusSymlink"
  by (simp add: dangling_world_def updateManagedCopy_def target_status_def fs_defs path_defs
        utf8_defs eval_nat_numeral)

text \<open>
  C4. The claim: \<open>removeLink\<close> deletes a symbolic link wherever it points, also to a
  file that is not there. The code, on \<open>dangling_world\<close>: it reports that the target
  does not exist and leaves the link where it is.
\<close>

theorem removeLink_dangling_kept:
  "removeLink [''w'', ''CLAUDE.md''] dangling_world = (DoesNotExist, dangling_world)"
  by (simp add: dangling_world_def removeLink_def fs_defs path_defs utf8_defs eval_nat_numeral)

text \<open>
  For a link that leads to something that is there, \<open>removeLink\<close> does what C4 says: it
  unlinks the entry at the target and nothing else, and a failure of \<open>unlinkSync\<close> is the
  line it prints, with the file system as it was.
\<close>

lemma removeLink_live_symlink:
  assumes "nodes s (path_resolve1 targetPath) = Some (Link a segs)"
    and "fileExists (path_resolve1 targetPath) s"
  shows "removeLink targetPath s =
           (case unlinkSync (path_resolve1 targetPath) s of
              Inr s' \<Rightarrow> (SymlinkRemoved, s')
            | Inl e \<Rightarrow> (Failed e, s))"
    and "unlinkSync (path_resolve1 targetPath) s = Inr s' \<Longrightarrow>
           s' = s\<lparr>nodes := (nodes s)(path_resolve1 targetPath := None)\<rparr>"
  using assms
  by (auto simp: removeLink_def isSymlink_iff unlinkSync_def
           split: option.splits node.splits bool.splits)

text \<open>
  C5. The claim: a call of \<open>createLink\<close> that has created is followed by a call that
  finds the target already satisfied. The code, on \<open>dangling_world\<close>: the first call
  reports a managed copy created (written through the link, as in C2); the second call
  changes nothing, but what it reports is a symbolic link that points elsewhere.
\<close>

theorem createLink_twice_dangling:
  "createLink [''w'', ''AGENTS.md''] [''w'', ''CLAUDE.md''] dangling_world =
     ((ManagedCopyCreated, True), written_through)
   \<and> createLink [''w'', ''AGENTS.md''] [''w'', ''CLAUDE.md''] written_through =
     ((SymlinkPointsElsewhere, True), written_through)"
  by (simp add: written_through_def dangling_world_def createLink_def createLink_new_def
        fs_defs path_defs utf8_defs eval_nat_numeral)

text \<open>
  The same happens to a link that \<open>createLink\<close> has made itself while the source was
  missing: the second call does not find it and fails.
\<close>

lemma createLink_twice_sourceless:
  "createLink [''w'', ''AGENTS.md''] [''w'', ''.cursor'', ''rules'', ''AGENTS.md''] bare_world
     = ((SymlinkCreated, True), bare_linked)
   \<and> createLink [''w'', ''AGENTS.md''] [''w'', ''.cursor'', ''rules'', ''AGENTS.md''] bare_linked
     = ((Failed ENOENT, False), bare_linked)"
  by (simp add: bare_world_def bare_dirs_def bare_linked_def createLink_def createLink_new_def
        fs_defs path_defs utf8_defs eval_nat_numeral)

text \<open>
  Where nothing at all is at the target and the source is a regular file, the two calls
  behave as C5 says, with a link where the platform allows links and with a copy where
  it does not: the first call creates, the second finds what the first has made and
  changes nothing.
\<close>

lemma createLink_twice_fresh:
  "createLink [''w'', ''AGENTS.md''] [''w'', ''GEMINI.md''] mixed_world
     = ((SymlinkCreated, True),
        mixed_world\<lparr>nodes := (nodes mixed_world)
          ([''w'', ''GEMINI.md''] \<mapsto> Link False [''AGENTS.md''])\<rparr>)
   \<and> createLink [''w'', ''AGENTS.md''] [''w'', ''GEMINI.md'']
         (mixed_world\<lparr>nodes := (nodes mixed_world)
            ([''w'', ''GEMINI.md''] \<mapsto> Link False [''AGENTS.md''])\<rparr>)
     = ((SymlinkAlreadyExists, True),
        mixed_world\<lparr>nodes := (nodes mixed_world)
          ([''w'', ''GEMINI.md''] \<mapsto> Link False [''AGENTS.md''])\<rparr>)
   \<and> createLink [''w'', ''AGENTS.md''] [''w'', ''CLAUDE.md''] nolink_world
     = ((ManagedCopyCreated, True), nolink_copied)
   \<and> createLink [''w'', ''AGENTS.md''] [''w'', ''CLAUDE.md''] nolink_copied
     = ((ManagedCopyAlreadyExists, True), nolink_copied)"
  by (simp add: mixed_world_def nolink_world_def nolink_copied_def createLink_def
        createLink_new_def fs_defs path_defs utf8_defs utf8_decode_header header_has_marker
        eval_nat_numeral)


section \<open>A managed copy and its source\<close>





text \<open>
  What the amended statement leaves out is the copy that was written through a
  dangling link (C2): it lies behind a symbolic link, which \<open>updateManagedCopy\<close> skips,
  so it does not follow the source when the source is edited.
\<close>

lemma sync_skips_written_through:
  "updateManagedCopy [''w'', ''AGENTS.md''] [''w'', ''CLAUDE.md''] written_through_edited
     = (SymlinkNoSyncNeeded, written_through_edited)
   \<and> readFileSync [''w'', ''AGENTS.md''] written_through_edited = Inr ''Bye''
   \<and> readFileSync [''w'', ''CLAUDE.md''] written_through_edited
        = Inr (generateManagedHeader @ ''Hello'')"
  by (simp add: written_through_edited_def written_through_def dangling_world_def
        updateManagedCopy_def fs_defs path_defs utf8_defs utf8_decode_header eval_nat_numeral)


section \<open>A symbolic link that leads elsewhere\<close>

text \<open>
  C7. Let the target be a symbolic link that leads to something that is there. Then
  \<open>createLink\<close> returns \<open>true\<close> and changes nothing, and what it reports depends on the
  text of the link alone, resolved from the directory of the target: when that is not
  the resolved source path, the report is that the link points elsewhere.
  \<open>updateManagedCopy\<close> reports a symbolic link and changes nothing. Neither looks at
  what the link leads to, so the marker in a file behind the link does not make the
  target a managed copy. (A link that leads to nothing is the broken link of C2.)
\<close>

theorem symlink_precedence:
  assumes "nodes s (path_resolve1 targetPath) = Some (Link a segs)"
    and "fileExists (path_resolve1 targetPath) s"
  shows "createLink sourcePath targetPath s =
           ((if path_resolve (path_dirname (path_resolve1 targetPath)) a segs
                  = path_resolve1 sourcePath
             then SymlinkAlreadyExists else SymlinkPointsElsewhere, True), s)
       \<and> updateManagedCopy sourcePath targetPath s = (SymlinkNoSyncNeeded, s)"
  using assms
  by (simp add: createLink_def updateManagedCopy_def isSymlink_iff readlinkSync_def)

theorem symlink_precedence_witness:
  "nodes elsewhere_world (path_resolve1 [''w'', ''CLAUDE.md'']) = Some (Link False [''old.md''])
   \<and> fileExists (path_resolve1 [''w'', ''CLAUDE.md'']) elsewhere_world
   \<and> path_resolve (path_dirname (path_resolve1 [''w'', ''CLAUDE.md''])) False [''old.md'']
        \<noteq> path_resolve1 [''w'', ''AGENTS.md'']
   \<and> isManagedFile [''w'', ''old.md''] elsewhere_world
   \<and> createLink [''w'', ''AGENTS.md''] [''w'', ''CLAUDE.md''] elsewhere_world
        = ((SymlinkPointsElsewhere, True), elsewhere_world)
   \<and> updateManagedCopy [''w'', ''AGENTS.md''] [''w'', ''CLAUDE.md''] elsewhere_world
        = (SymlinkNoSyncNeeded, elsewhere_world)"
proof -
  have h1: "nodes elsewhere_world (path_resolve1 [''w'', ''CLAUDE.md''])
              = Some (Link False [''old.md''])"
    by (simp add: elsewhere_world_def path_defs)
  have h2: "fileExists (path_resolve1 [''w'', ''CLAUDE.md'']) elsewhere_world"
    by (simp add: elsewhere_world_def fs_defs path_defs utf8_defs eval_nat_numeral)
  have h3: "path_resolve (path_dirname (path_resolve1 [''w'', ''CLAUDE.md''])) False [''old.md'']
              \<noteq> path_resolve1 [''w'', ''AGENTS.md'']"
    by (simp add: path_defs)
  have "nodes elsewhere_world [''w'', ''old.md'']
          = Some (File (generateManagedHeader @ ''Old'') True True)"
    by (simp add: elsewhere_world_def)
  then have h4: "isManagedFile [''w'', ''old.md''] elsewhere_world"
    by (simp add: isManagedFile_File utf8_decode_header header_has_marker)
  from symlink_precedence [OF h1 h2, of "[''w'', ''AGENTS.md'']"] h1 h2 h3 h4 show ?thesis
    by simp
qed


section \<open>The source is missing\<close>

text \<open>
  C8. If \<open>fileExists\<close> does not find the source, \<open>sync\<close> throws the error with code
  \<open>ENOENT\<close> and the path of the source before it looks at any target: it prints no line
  for a target and returns the file system it was given.
\<close>

theorem sync_source_missing:
  assumes "\<not> fileExists (path_join cwd SOURCE_FILE) s"
  shows "sync cwd s = ((Inl (SourceNotFound (path_join cwd SOURCE_FILE)), []), s)"
  using assms by (simp add: sync_def sync_on_def)

theorem sync_source_missing_witness:
  "\<not> fileExists (path_join [''w''] SOURCE_FILE) sourceless_world
   \<and> sync [''w''] sourceless_world
        = ((Inl (SourceNotFound (path_join [''w''] SOURCE_FILE)), []), sourceless_world)"
proof -
  have h: "\<not> fileExists (path_join [''w''] SOURCE_FILE) sourceless_world"
    by (simp add: sourceless_world_def SOURCE_FILE_def fs_defs path_defs utf8_defs eval_nat_numeral)
  from sync_source_missing [OF h] h show ?thesis
    by blast
qed

text \<open>
  C10. Let the platform allow symbolic links, let nothing be at the target, and let
  \<open>ensureDir\<close> succeed and leave the parent of the target a directory that may be
  written; let the text from the parent to the source not be empty. Then \<open>createLink\<close>
  reports the link created and returns \<open>true\<close>, whatever is or is not at the source:
  nothing in the hypotheses speaks of the source. The link leads to the source path, so
  when nothing is there the link dangles: \<open>fileExists\<close> does not find the target.
\<close>

theorem createLink_without_source:
  assumes "symlinks_ok s"
    and "nodes s (path_resolve1 targetPath) = None"
    and "ensureDir (path_resolve1 targetPath) s = (None, s1)"
    and "nodes s1 (path_dirname (path_resolve1 targetPath)) = Some (Dir True)"
    and "path_relative (path_dirname (path_resolve1 targetPath)) (path_resolve1 sourcePath) = rel"
    and "rel \<noteq> []"
    and "s2 = s1\<lparr>nodes := (nodes s1)(path_resolve1 targetPath \<mapsto> Link False rel)\<rparr>"
  shows "createLink sourcePath targetPath s = ((SymlinkCreated, True), s2)
       \<and> path_resolve (path_dirname (path_resolve1 targetPath)) False rel
           = path_resolve1 sourcePath
       \<and> (nodes s1 (path_resolve1 sourcePath) = None
            \<longrightarrow> \<not> fileExists (path_resolve1 targetPath) s2)"
proof -
  let ?T = "path_resolve1 targetPath" and ?S = "path_resolve1 sourcePath"
  have absent1: "nodes s1 ?T = None"
    using assms(3,2) by (rule ensureDir_keeps_absent)
  have ok1: "symlinks_ok s1"
    using ensureDir_nodes(1) [OF assms(3)] assms(1) by simp
  have link: "symlinkSync (False, rel) ?T s1 = Inr s2"
    using ok1 absent1 assms(4,6,7) by (simp add: symlinkSync_def create_entry_def)
  have nex: "\<not> fileExists ?T s"
    using assms(2) by (rule fileExists_absent)
  have run: "createLink sourcePath targetPath s = ((SymlinkCreated, True), s2)"
    using nex assms(3,5) link by (simp add: createLink_def createLink_new_def)
  have rt: "path_resolve (path_dirname ?T) False rel = ?S"
    using resolve_relative [OF normal_resolve1] assms(5) by blast
  have dangling: "\<not> fileExists ?T s2" if gone: "nodes s1 ?S = None"
  proof -
    have l: "nodes s2 ?T = Some (Link False rel)" using assms(7) by simp
    have st: "foldl seg_step (link_start False ?T) rel = ?S"
      using rt by (simp add: path_resolve_def link_start_def)
    have "(\<exists>e. follow symloop_max s2 ?T [] = Inl e) \<or> follow symloop_max s2 ?T [] = Inr ?S"
    proof (cases "?S = ?T")
      case True
      with st have "foldl seg_step (link_start False ?T) rel = ?T" by simp
      from follow_self_loop [OF l this] show ?thesis by blast
    next
      case False
      have g: "nodes s2 ?S = None" using gone False assms(7) by simp
      have "follow symloop_max s2 ?T [] = follow 39 s2 (link_start False ?T) rel"
        using follow_link_step [OF l, of 39] assms(6) by (simp add: symloop_max_Suc)
      with follow_walk [of 39 s2 "link_start False ?T" rel] st
      have "(\<exists>e. follow symloop_max s2 ?T [] = Inl e)
            \<or> follow symloop_max s2 ?T [] = follow 39 s2 ?S []"
        by auto
      then show ?thesis using follow_absent [OF g] by auto
    qed
    then show ?thesis
    proof
      assume "\<exists>e. follow symloop_max s2 ?T [] = Inl e"
      then show ?thesis by (auto simp: fileExists_def accessSync_def)
    next
      assume r: "follow symloop_max s2 ?T [] = Inr ?S"
      have "?S \<noteq> ?T" using follow_result_not_link [OF r, of False rel] l by auto
      then have "nodes s2 ?S = None" using gone assms(7) by simp
      with r show ?thesis by (simp add: fileExists_def accessSync_def)
    qed
  qed
  show ?thesis using run rt dangling by blast
qed

theorem createLink_without_source_witness:
  "symlinks_ok bare_world
   \<and> nodes bare_world (path_resolve1 [''w'', ''.cursor'', ''rules'', ''AGENTS.md'']) = None
   \<and> ensureDir (path_resolve1 [''w'', ''.cursor'', ''rules'', ''AGENTS.md'']) bare_world
        = (None, bare_dirs)
   \<and> nodes bare_dirs (path_dirname (path_resolve1 [''w'', ''.cursor'', ''rules'', ''AGENTS.md'']))
        = Some (Dir True)
   \<and> path_relative (path_dirname (path_resolve1 [''w'', ''.cursor'', ''rules'', ''AGENTS.md'']))
        (path_resolve1 [''w'', ''AGENTS.md'']) = [''..'', ''..'', ''AGENTS.md'']
   \<and> nodes bare_dirs (path_resolve1 [''w'', ''AGENTS.md'']) = None
   \<and> createLink [''w'', ''AGENTS.md''] [''w'', ''.cursor'', ''rules'', ''AGENTS.md''] bare_world
        = ((SymlinkCreated, True), bare_linked)
   \<and> \<not> fileExists (path_resolve1 [''w'', ''.cursor'', ''rules'', ''AGENTS.md'']) bare_linked"
proof -
  let ?t = "[''w'', ''.cursor'', ''rules'', ''AGENTS.md'']"
  have h1: "symlinks_ok bare_world"
    by (simp add: bare_world_def)
  have h2: "nodes bare_world (path_resolve1 ?t) = None"
    by (simp add: bare_world_def path_defs)
  have h3: "ensureDir (path_resolve1 ?t) bare_world = (None, bare_dirs)"
    by (simp add: bare_world_def bare_dirs_def fs_defs path_defs utf8_defs eval_nat_numeral)
  have h4: "nodes bare_dirs (path_dirname (path_resolve1 ?t)) = Some (Dir True)"
    by (simp add: bare_world_def bare_dirs_def path_defs)
  have h5: "path_relative (path_dirname (path_resolve1 ?t)) (path_resolve1 [''w'', ''AGENTS.md''])
              = [''..'', ''..'', ''AGENTS.md'']"
    by (simp add: path_defs)
  have h6: "[''..'', ''..'', ''AGENTS.md''] \<noteq> []"
    by simp
  have h7: "nodes bare_dirs (path_resolve1 [''w'', ''AGENTS.md'']) = None"
    by (simp add: bare_world_def bare_dirs_def path_defs)
  from createLink_without_source [OF h1 h2 h3 h4 h5 h6 bare_linked_def] h1 h2 h3 h4 h5 h7
  show ?thesis by blast
qed


section \<open>The driver and its targets\<close>

text \<open>Each loop prints one line for every target, in order: none is left out.\<close>

lemma init_loop_materialize:
  "materialize_each src cwd ts s = (out, s') \<Longrightarrow>
   init_loop src cwd ts fl s =
     ((fl @ map fst (filter (\<lambda>x. is_failure (snd x)) out), out), s')"
proof (induction ts arbitrary: s fl out s')
  case Nil
  then show ?case by simp
next
  case (Cons t ts)
  obtain line ok s1 where c: "createLink src (path_join cwd t) s = ((line, ok), s1)"
    by (metis prod.exhaust)
  obtain out1 s2 where m: "materialize_each src cwd ts s1 = (out1, s2)"
    by (metis prod.exhaust)
  from Cons.prems c m have o: "out = (t, line) # out1" and s: "s' = s2"
    by simp_all
  have ok: "ok = (\<not> is_failure line)"
    using c by (rule createLink_success)
  show ?case
    using c ok o s Cons.IH [OF m] by simp
qed

lemma materialize_each_targets:
  "materialize_each src cwd ts s = (out, s') \<Longrightarrow> map fst out = ts"
  by (induction ts arbitrary: s out) (auto split: prod.splits)

lemma sync_loop_targets:
  "sync_loop src cwd ts s = (out, s') \<Longrightarrow> map fst out = ts"
  by (induction ts arbitrary: s out) (auto split: prod.splits)

lemma clean_loop_targets:
  "clean_loop cwd ts s = (out, s') \<Longrightarrow> map fst out = ts"
  by (induction ts arbitrary: s out) (auto split: prod.splits)

lemma mixed_run:
  "materialize_each (path_join [''w''] SOURCE_FILE) [''w''] TARGET_FILES mixed_world
     = (mixed_out, mixed_world_after)"
  by (simp add: mixed_world_def mixed_world_after_def mixed_out_def TARGET_FILES_def
        SOURCE_FILE_def createLink_def createLink_new_def fs_defs path_defs MANAGED_MARKER_def
        starts_with_def utf8_defs eval_nat_numeral)

text \<open>
  C9. Let the source be there, or let \<open>init\<close> have written the template. Then, for
  every list of targets, \<open>init\<close> materializes every target in turn, each on the file
  system the one before has left, whatever the one before has reported; it prints one
  line for each target, in order. Only then does it throw the error that lists the
  failed targets, and it throws it exactly when one of the lines is a failure; the
  targets listed are those whose line is a failure. A target that is skipped is not
  among them. (When the source is missing and cannot be written, \<open>init\<close> throws before
  the loop; that is not the failure of a target.)
\<close>

theorem init_processes_every_target:
  assumes "(if \<not> fileExists (path_join cwd SOURCE_FILE) s
            then writeFileSync (path_join cwd SOURCE_FILE) generateDefaultAgentsMd s
            else Inr s) = Inr s0"
    and "materialize_each (path_join cwd SOURCE_FILE) cwd targets s0 = (out, s1)"
  shows "map fst out = targets
       \<and> init_on targets cwd s =
           ((if \<exists>x \<in> set out. is_failure (snd x)
             then Inl (TargetsFailed (map fst (filter (\<lambda>x. is_failure (snd x)) out)))
             else Inr (), out), s1)"
proof -
  have "(\<exists>x \<in> set out. is_failure (snd x)) = (filter (\<lambda>x. is_failure (snd x)) out \<noteq> [])"
    by (simp add: filter_empty_conv)
  then show ?thesis
    using assms(1) init_loop_materialize [OF assms(2), of "[]"]
      materialize_each_targets [OF assms(2)]
    by (simp add: init_on_def Let_def)
qed

theorem init_processes_every_target_witness:
  "(if \<not> fileExists (path_join [''w''] SOURCE_FILE) mixed_world
    then writeFileSync (path_join [''w''] SOURCE_FILE) generateDefaultAgentsMd mixed_world
    else Inr mixed_world) = Inr mixed_world
   \<and> materialize_each (path_join [''w''] SOURCE_FILE) [''w''] TARGET_FILES mixed_world
        = (mixed_out, mixed_world_after)
   \<and> map fst mixed_out = TARGET_FILES
   \<and> init [''w''] mixed_world =
        ((Inl (TargetsFailed [[''.cursor'', ''rules'', ''AGENTS.md'']]), mixed_out),
         mixed_world_after)"
proof -
  have h1: "(if \<not> fileExists (path_join [''w''] SOURCE_FILE) mixed_world
             then writeFileSync (path_join [''w''] SOURCE_FILE) generateDefaultAgentsMd mixed_world
             else Inr mixed_world) = Inr mixed_world"
    by (simp add: mixed_world_def SOURCE_FILE_def fs_defs path_defs utf8_defs eval_nat_numeral)
  note h2 = mixed_run
  have e: "\<exists>x \<in> set mixed_out. is_failure (snd x)"
    by (simp add: mixed_out_def)
  have f: "map fst (filter (\<lambda>x. is_failure (snd x)) mixed_out)
             = [[''.cursor'', ''rules'', ''AGENTS.md'']]"
    by (simp add: mixed_out_def)
  from init_processes_every_target [OF h1 h2] h1 h2 e f show ?thesis
    by (simp add: init_def)
qed

end
